theory Spec2Isabelle
  imports Complex_Main "HOL-Library.Sublist"
begin

section \<open>Slot assignment model: formation arrays\<close>

text \<open>
  The catalog entry \<open>LibraryItem = { id, name, src }\<close> of \<open>app/page.tsx\<close>. The field
  \<open>id\<close> is called \<open>item_id\<close> here, since \<open>id\<close> is the identity function of HOL; the
  other two fields are prefixed alike.
\<close>

record LibraryItem =
  item_id :: string
  item_name :: string
  item_src :: string

text \<open>
  A formation is a JavaScript array of \<open>LibraryItem | null\<close>. \<open>None\<close> stands for every
  falsy entry (\<open>null\<close>, and the \<open>undefined\<close> of a hole or of a read past the end);
  an object is always truthy. Indices are array indices, that is natural numbers: the
  callers pass \<open>0..5\<close> (character formation) and \<open>0..2\<close> (pet formation).
\<close>

type_synonym slots = "LibraryItem option list"

text \<open>\<open>xs[i]\<close>: reading past the end gives \<open>undefined\<close>.\<close>

definition getAt :: "'a option list \<Rightarrow> nat \<Rightarrow> 'a option" where
  "getAt xs i = (if i < length xs then xs ! i else None)"

text \<open>\<open>xs[i] = v\<close>: writing past the end extends the array, leaving holes.\<close>

definition setAt :: "'a option list \<Rightarrow> nat \<Rightarrow> 'a option \<Rightarrow> 'a option list" where
  "setAt xs i v =
     (if i < length xs then xs[i := v]
      else xs @ replicate (i - length xs) None @ [v])"

text \<open>\<open>Array.prototype.findIndex\<close>; \<open>None\<close> is the result \<open>-1\<close>.\<close>

fun findIndex :: "('a \<Rightarrow> bool) \<Rightarrow> 'a list \<Rightarrow> nat option" where
  "findIndex P [] = None"
| "findIndex P (x # xs) = (if P x then Some 0 else map_option Suc (findIndex P xs))"

text \<open>\<open>Boolean(slot)\<close>, \<open>!slot\<close> negated.\<close>

definition truthy :: "'a option \<Rightarrow> bool" where
  "truthy s = (s \<noteq> None)"

text \<open>\<open>idx <= 1 ? 0 : idx <= 3 ? 1 : 2\<close>\<close>

definition laneOf :: "nat \<Rightarrow> nat" where
  "laneOf idx = (if idx \<le> 1 then 0 else if idx \<le> 3 then 1 else 2)"

text \<open>\<open>prev.filter(Boolean).length\<close>\<close>

definition filled :: "slots \<Rightarrow> nat" where
  "filled prev = length (filter truthy prev)"

text \<open>
  The \<open>prev.forEach((slot, idx) => ...)\<close> loop that fills \<open>laneCounts\<close>, from index
  \<open>idx\<close> on.
\<close>

fun countLanes :: "nat \<Rightarrow> slots \<Rightarrow> int list \<Rightarrow> int list" where
  "countLanes idx [] laneCounts = laneCounts"
| "countLanes idx (slot # rest) laneCounts =
     (if \<not> truthy slot then countLanes (Suc idx) rest laneCounts
      else countLanes (Suc idx) rest
             (laneCounts[laneOf idx := laneCounts ! laneOf idx + 1]))"

definition laneCountsOf :: "slots \<Rightarrow> int list" where
  "laneCountsOf prev = countLanes 0 prev [0, 0, 0]"

text \<open>
  The updater that \<open>assignFormation(index, item)\<close> hands to \<open>setFormationSlots\<close>
  (\<open>app/page.tsx\<close>, lines 324-358). The function has no \<open>throw\<close>; every path
  returns an array, either \<open>prev\<close> itself or a changed copy.
\<close>

definition assignFormation :: "nat \<Rightarrow> LibraryItem option \<Rightarrow> slots \<Rightarrow> slots" where
  "assignFormation index item prev =
     (let filled = filled prev;
          laneCounts = laneCountsOf prev;
          targetLane = laneOf index
      in case item of
           Some it \<Rightarrow>
             (let existingIdx =
                    findIndex (\<lambda>s. case s of None \<Rightarrow> False
                                      | Some x \<Rightarrow> item_id x = item_id it) prev;
                  next = (case existingIdx of None \<Rightarrow> prev
                          | Some e \<Rightarrow> setAt prev e None)
              in if existingIdx = Some index then next
                 else
                   (let laneCounts =
                          (case existingIdx of None \<Rightarrow> laneCounts
                           | Some e \<Rightarrow>
                               laneCounts[laneOf e := laneCounts ! laneOf e - 1])
                    in if \<not> truthy (getAt next index) \<and> filled \<ge> 5 then prev
                       else if \<not> truthy (getAt next index) \<and> laneCounts ! targetLane \<ge> 2
                       then prev
                       else setAt next index (Some it)))
         | None \<Rightarrow> setAt prev index None)"

text \<open>The initial state \<open>[null, null, null, null, null, null]\<close>.\<close>

definition initialFormation :: slots where
  "initialFormation = [None, None, None, None, None, None]"


text \<open>A sequence of \<open>assignFormation\<close> calls, applied from left to right.\<close>

fun assignAll :: "(nat \<times> LibraryItem option) list \<Rightarrow> slots \<Rightarrow> slots" where
  "assignAll [] f = f"
| "assignAll ((index, item) # calls) f = assignAll calls (assignFormation index item f)"

text \<open>
  The updater of \<open>assignPetFormation(index, item)\<close> (\<open>app/page.tsx\<close>, lines 360-371
  and, word for word the same, lines 1786-1796). The comparison \<open>s?.id === item?.id\<close>
  is between two possibly \<open>undefined\<close> values, so for \<open>item = null\<close> it finds the
  first empty position.
\<close>

definition assignPetFormation :: "nat \<Rightarrow> LibraryItem option \<Rightarrow> slots \<Rightarrow> slots" where
  "assignPetFormation index item prev =
     (let next = prev;
          existingIdx =
            findIndex (\<lambda>s. map_option item_id s = map_option item_id item) prev;
          next = (case existingIdx of None \<Rightarrow> next
                  | Some e \<Rightarrow> if e \<noteq> index then setAt next e None else next)
      in setAt next index item)"

text \<open>Catalog entries for the concrete scenarios below.\<close>

definition sampleItem :: "string \<Rightarrow> LibraryItem" where
  "sampleItem n = \<lparr>item_id = n, item_name = n, item_src = ''/assets/'' @ n @ ''.png''\<rparr>"

subsection \<open>Occupied positions as sets\<close>

definition occ :: "'a option list \<Rightarrow> nat set" where
  "occ f = {i. getAt f i \<noteq> None}"

definition laneOcc :: "nat \<Rightarrow> nat \<Rightarrow> 'a option list \<Rightarrow> nat set" where
  "laneOcc k l f = {i. getAt f i \<noteq> None \<and> laneOf (k + i) = l}"

definition cinv :: "slots \<Rightarrow> bool" where
  "cinv f \<longleftrightarrow> card (occ f) \<le> 5 \<and> (\<forall>l. card (laneOcc 0 l f) \<le> 2)"

section \<open>Canvas geometry and the click overlay\<close>

text \<open>
  JavaScript numbers are modelled as exact rationals: the geometry below is sums,
  products and quotients of small constants, and the statements about it are about
  the formulas. The rounding of IEEE doubles and of the browser's layout engine is
  not part of the model.
\<close>

record rect =
  rect_x :: rat
  rect_y :: rat
  rect_w :: rat
  rect_h :: rat

text \<open>
  The constants that \<open>drawCanvas\<close> computes from the canvas width before it draws
  (\<open>app/page.tsx\<close>, lines 1176-1188), under their source names.
  \<open>targetHeight || calculatedHeight\<close> takes the calculated height when the argument
  is missing or \<open>0\<close>.
\<close>

record canvasGeometry =
  padding :: rat
  slotWidth :: rat
  charImageHeight :: rat
  cardImageHeight :: rat
  equipSize :: rat
  slotsHeight :: rat
  bottomSectionHeight :: rat
  calculatedHeight :: rat
  canvasHeight :: rat

definition drawGeometry :: "rat \<Rightarrow> rat option \<Rightarrow> canvasGeometry" where
  "drawGeometry canvasWidth targetHeight =
     (let padding = 16;
          slotWidth = (canvasWidth - padding * 2 - 16 * 4) / 5;
          charImageHeight = min (slotWidth * (4 / 3)) 280;
          cardImageHeight = min (slotWidth * (8 / 5)) 280;
          equipSize = 52;
          slotsHeight = charImageHeight + cardImageHeight + equipSize + 32;
          bottomSectionHeight = 180;
          calculatedHeight = padding + slotsHeight + 12 + bottomSectionHeight + padding;
          canvasHeight = (case targetHeight of None \<Rightarrow> calculatedHeight
                          | Some h \<Rightarrow> if h \<noteq> 0 then h else calculatedHeight)
      in \<lparr>padding = padding, slotWidth = slotWidth, charImageHeight = charImageHeight,
          cardImageHeight = cardImageHeight, equipSize = equipSize,
          slotsHeight = slotsHeight, bottomSectionHeight = bottomSectionHeight,
          calculatedHeight = calculatedHeight, canvasHeight = canvasHeight\<rparr>)"

text \<open>
  The outcome of a \<open>drawCanvas\<close> call as far as its geometry goes. The two early
  returns (\<open>if (!canvas) return\<close>, \<open>if (!ctx) return\<close>) end the call silently
  (\<open>None\<close>); otherwise the geometry is computed and the scene drawn. The source
  has no \<open>throw\<close> and no test of the width, so no branch yields \<open>Inl\<close>.
\<close>

datatype draw_error = InvalidInput

definition drawCanvas :: "bool \<Rightarrow> rat \<Rightarrow> rat option \<Rightarrow> draw_error + canvasGeometry option" where
  "drawCanvas surfaceReady width targetHeight =
     (if \<not> surfaceReady then Inr None
      else Inr (Some (drawGeometry width targetHeight)))"

text \<open>
  Where the character loop of \<open>drawCanvas\<close> (lines 1203-1337) draws the sub-regions of
  slot \<open>i\<close>: the character image (or its fallback or dashed frame), the card image, and
  equipment cell \<open>j\<close>.
\<close>

definition drawCharRect :: "canvasGeometry \<Rightarrow> nat \<Rightarrow> rect" where
  "drawCharRect g i =
     (let y = padding g;
          slotPadding = 8;
          x = padding g + of_nat i * (slotWidth g + 16);
          slotX = x + slotPadding;
          slotY = y + slotPadding
      in \<lparr>rect_x = slotX, rect_y = slotY,
          rect_w = slotWidth g - slotPadding * 2, rect_h = charImageHeight g\<rparr>)"

definition drawCardRect :: "canvasGeometry \<Rightarrow> nat \<Rightarrow> rect" where
  "drawCardRect g i =
     (let y = padding g;
          slotPadding = 8;
          x = padding g + of_nat i * (slotWidth g + 16);
          slotX = x + slotPadding;
          slotY = y + slotPadding;
          slotY = slotY + (charImageHeight g + 12)
      in \<lparr>rect_x = slotX, rect_y = slotY,
          rect_w = slotWidth g - slotPadding * 2, rect_h = cardImageHeight g\<rparr>)"

definition drawEquipRect :: "canvasGeometry \<Rightarrow> nat \<Rightarrow> nat \<Rightarrow> rect" where
  "drawEquipRect g i j =
     (let y = padding g;
          slotPadding = 8;
          x = padding g + of_nat i * (slotWidth g + 16);
          slotX = x + slotPadding;
          slotY = y + slotPadding;
          slotY = slotY + (charImageHeight g + 12);
          slotY = slotY + (cardImageHeight g + 12);
          equipGap = 6;
          equipTotalWidth = slotWidth g - slotPadding * 2;
          equipItemWidth = (equipTotalWidth - equipGap * 3) / 4;
          equipX = slotX + of_nat j * (equipItemWidth + equipGap)
      in \<lparr>rect_x = equipX, rect_y = slotY + 6,
          rect_w = equipItemWidth, rect_h = equipSize g\<rparr>)"

text \<open>The memoized \<open>canvasLayout\<close> of the page (lines 1800-1819).\<close>

record layout =
  layout_padding :: rat
  layout_slotWidth :: rat
  layout_charImageHeight :: rat
  layout_cardImageHeight :: rat
  layout_equipSize :: rat
  layout_slotPadding :: rat
  layout_gap :: rat

definition canvasLayout :: layout where
  "canvasLayout =
     (let width = 1280;
          padding = 16;
          slotWidth = (width - padding * 2 - 16 * 4) / 5;
          charImageHeight = min (slotWidth * (4 / 3)) 280;
          cardImageHeight = min (slotWidth * (8 / 5)) 280;
          equipSize = 52;
          slotPadding = 8;
          gap = 16
      in \<lparr>layout_padding = padding, layout_slotWidth = slotWidth,
          layout_charImageHeight = charImageHeight,
          layout_cardImageHeight = cardImageHeight, layout_equipSize = equipSize,
          layout_slotPadding = slotPadding, layout_gap = gap\<rparr>)"

text \<open>
  The overlay (lines 1865-1949), in canvas coordinates. The overlay box is placed at
  the canvas's top-left corner; its inner box has left and top padding
  \<open>canvasLayout.padding\<close>; the slot boxes are laid out in a row, each
  \<open>canvasLayout.slotWidth\<close> wide with \<open>canvasLayout.gap\<close> between them, so slot
  \<open>idx\<close> starts \<open>idx * (slotWidth + gap)\<close> to the right (the offset the source
  also names \<open>slotX\<close>). Each button is positioned inside its slot box by the
  \<open>left\<close>, \<open>top\<close>, \<open>width\<close> and \<open>height\<close> of its style.
\<close>

definition overlaySlotOrigin :: "nat \<Rightarrow> rat \<times> rat" where
  "overlaySlotOrigin idx =
     (let slotX = of_nat idx * (layout_slotWidth canvasLayout + layout_gap canvasLayout)
      in (layout_padding canvasLayout + slotX, layout_padding canvasLayout))"

definition overlayCharRect :: "nat \<Rightarrow> rect" where
  "overlayCharRect idx =
     (let (ox, oy) = overlaySlotOrigin idx
      in \<lparr>rect_x = ox + layout_slotPadding canvasLayout,
          rect_y = oy + layout_slotPadding canvasLayout,
          rect_w = layout_slotWidth canvasLayout - layout_slotPadding canvasLayout * 2,
          rect_h = layout_charImageHeight canvasLayout\<rparr>)"

definition overlayCardRect :: "nat \<Rightarrow> rect" where
  "overlayCardRect idx =
     (let (ox, oy) = overlaySlotOrigin idx
      in \<lparr>rect_x = ox + layout_slotPadding canvasLayout,
          rect_y = oy + (layout_slotPadding canvasLayout
                         + layout_charImageHeight canvasLayout + 12),
          rect_w = layout_slotWidth canvasLayout - layout_slotPadding canvasLayout * 2,
          rect_h = layout_cardImageHeight canvasLayout\<rparr>)"

definition overlayEquipRect :: "nat \<Rightarrow> nat \<Rightarrow> rect" where
  "overlayEquipRect idx equipIdx =
     (let (ox, oy) = overlaySlotOrigin idx;
          equipGap = 6;
          equipTotalWidth = layout_slotWidth canvasLayout
                            - layout_slotPadding canvasLayout * 2;
          equipItemWidth = (equipTotalWidth - equipGap * 3) / 4;
          slotX = layout_slotPadding canvasLayout;
          slotY = layout_slotPadding canvasLayout + layout_charImageHeight canvasLayout
                  + 12 + layout_cardImageHeight canvasLayout + 12;
          equipX = slotX + of_nat equipIdx * (equipItemWidth + equipGap);
          equipY = slotY + 6
      in \<lparr>rect_x = ox + equipX, rect_y = oy + equipY,
          rect_w = equipItemWidth, rect_h = layout_equipSize canvasLayout\<rparr>)"

section \<open>Image cache and the draw pass\<close>

text \<open>
  An \<open>HTMLImageElement\<close> as far as the code looks at it: which \<open>new Image()\<close> it
  is (the number of the load that created it), its \<open>src\<close> and its \<open>complete\<close> flag.
\<close>

record image =
  img_load :: nat
  img_src :: string
  complete :: bool

text \<open>
  The module-level \<open>imageCache\<close> (a \<open>Map\<close> from \<open>src\<close> to image) together with the
  loads started so far: the \<open>src\<close> of every \<open>new Image()\<close> that \<open>loadImage\<close> has
  created, in order of creation. Each of them is one underlying fetch and decode.
\<close>

record loader =
  imageCache :: "string \<rightharpoonup> image"
  loads :: "string list"

text \<open>
  What \<open>loadImage\<close> returns: \<open>Promise.resolve(cached)\<close>, or the new promise that
  settles when load number \<open>k\<close> fires \<open>onload\<close> or \<open>onerror\<close>.
\<close>

datatype promise = Resolved image | Pending nat

definition emptyLoader :: loader where
  "emptyLoader = \<lparr>imageCache = Map.empty, loads = []\<rparr>"

text \<open>\<open>loadImage(src)\<close> (lines 1055-1072): the promise and the state after the call.\<close>

definition loadImage :: "string \<Rightarrow> loader \<Rightarrow> promise \<times> loader" where
  "loadImage src s =
     (let started = (Pending (length (loads s)), s\<lparr>loads := loads s @ [src]\<rparr>)
      in case imageCache s src of
           Some cached \<Rightarrow> if complete cached then (Resolved cached, s) else started
         | None \<Rightarrow> started)"

text \<open>
  The \<open>img.onload\<close> handler of load \<open>k\<close>: \<open>imageCache.set(src, img)\<close>, the image now
  being complete. The \<open>img.onerror\<close> handler rejects the promise and leaves the
  cache as it is.
\<close>

definition onload :: "nat \<Rightarrow> loader \<Rightarrow> loader" where
  "onload k s =
     (if k < length (loads s)
      then s\<lparr>imageCache := (imageCache s)(loads s ! k \<mapsto>
               \<lparr>img_load = k, img_src = loads s ! k, complete = True\<rparr>)\<rparr>
      else s)"

definition onerror :: "nat \<Rightarrow> loader \<Rightarrow> loader" where
  "onerror k s = s"

text \<open>The test \<open>img && img.complete\<close> on \<open>imageCache.get(src)\<close> in the draw pass.\<close>

definition resident :: "(string \<rightharpoonup> image) \<Rightarrow> string \<Rightarrow> image option" where
  "resident cache src =
     (case cache src of None \<Rightarrow> None
      | Some img \<Rightarrow> if complete img then Some img else None)"

text \<open>
  The calls of the draw pass that put marks on the surface. Calls that only set the
  drawing state (\<open>fillStyle\<close>, \<open>font\<close>, \<open>textAlign\<close>, \<open>setLineDash\<close>, ...) are left
  out. \<open>FillText t x y\<close> is \<open>ctx.fillText(t, x, y)\<close>.
\<close>

datatype drawOp =
    DrawImage image rect
  | FillRect rect
  | StrokeRect rect
  | FillRoundRect rect
  | StrokeRoundRect rect
  | FillText string rat rat

text \<open>
  The user-visible texts of the source are Korean; they stand here under ASCII names.
\<close>

definition selectCharacterHint :: string where
  "selectCharacterHint = ''[select character]''"

definition selectCardHint :: string where
  "selectCardHint = ''[select card]''"

definition emptyPetHint :: string where
  "emptyPetHint = ''[empty]''"

datatype EquipKind = weapon | armor | helmet | roon

definition equipLabels :: "EquipKind \<Rightarrow> string" where
  "equipLabels kind =
     (case kind of weapon \<Rightarrow> ''W'' | armor \<Rightarrow> ''A'' | helmet \<Rightarrow> ''H'' | roon \<Rightarrow> ''R'')"

text \<open>The character image of a slot (lines 1219-1255); \<open>r\<close> is its rectangle.\<close>

definition drawCharImage :: "(string \<rightharpoonup> image) \<Rightarrow> rect \<Rightarrow> LibraryItem option \<Rightarrow> drawOp list" where
  "drawCharImage cache r slotChar =
     (case slotChar of
        Some c \<Rightarrow>
          (case resident cache (item_src c) of
             Some charImg \<Rightarrow>
               (let nameBgHeight = 40
                in [DrawImage charImg r,
                    FillRect \<lparr>rect_x = rect_x r, rect_y = rect_y r + rect_h r - nameBgHeight,
                              rect_w = rect_w r, rect_h = nameBgHeight\<rparr>,
                    FillText (item_name c) (rect_x r + rect_w r / 2)
                      (rect_y r + rect_h r - nameBgHeight / 2)])
           | None \<Rightarrow>
               [FillRect r,
                FillText (item_name c) (rect_x r + rect_w r / 2) (rect_y r + rect_h r / 2)])
      | None \<Rightarrow>
          [StrokeRect r,
           FillText selectCharacterHint (rect_x r + rect_w r / 2) (rect_y r + rect_h r / 2)])"

text \<open>The card image of a slot (lines 1259-1297).\<close>

definition drawCardImage :: "(string \<rightharpoonup> image) \<Rightarrow> rect \<Rightarrow> LibraryItem option \<Rightarrow> drawOp list" where
  "drawCardImage cache r slotCard =
     (case slotCard of
        Some c \<Rightarrow>
          (case resident cache (item_src c) of
             Some cardImg \<Rightarrow>
               (let cardNameBgHeight = 32
                in [DrawImage cardImg r,
                    FillRect \<lparr>rect_x = rect_x r,
                              rect_y = rect_y r + rect_h r - cardNameBgHeight,
                              rect_w = rect_w r, rect_h = cardNameBgHeight\<rparr>,
                    FillText (item_name c) (rect_x r + rect_w r / 2)
                      (rect_y r + rect_h r - cardNameBgHeight / 2)])
           | None \<Rightarrow>
               [FillRect r,
                FillText (item_name c) (rect_x r + rect_w r / 2) (rect_y r + rect_h r / 2)])
      | None \<Rightarrow>
          [StrokeRect r,
           FillText selectCardHint (rect_x r + rect_w r / 2) (rect_y r + rect_h r / 2)])"

text \<open>
  One equipment cell (lines 1313-1337): the cell's own background and border, drawn
  for every cell, then the content.
\<close>

definition drawEquipCell :: "(string \<rightharpoonup> image) \<Rightarrow> rect \<Rightarrow> EquipKind \<Rightarrow> LibraryItem option \<Rightarrow> drawOp list" where
  "drawEquipCell cache r kind equip =
     [FillRoundRect r, StrokeRoundRect r] @
     (case equip of
        Some e \<Rightarrow>
          (case resident cache (item_src e) of
             Some equipImg \<Rightarrow> [DrawImage equipImg r]
           | None \<Rightarrow> [])
      | None \<Rightarrow>
          [FillText (equipLabels kind) (rect_x r + rect_w r / 2) (rect_y r + rect_h r / 2)])"

text \<open>
  The image slot of pet lane box \<open>i\<close> (lines 1402-1425) and its rectangle
  (lines 1343-1357, 1367, 1402-1404).
\<close>

definition drawPetRect :: "rat \<Rightarrow> canvasGeometry \<Rightarrow> nat \<Rightarrow> rect" where
  "drawPetRect canvasWidth g i =
     (let y = padding g + (slotsHeight g + 12);
          bottomSectionY = y;
          petSectionWidth = (canvasWidth - padding g * 2 - 12) * (6 / 10);
          petBoxWidth = (petSectionWidth - 16 - 8) / 3;
          petBoxY = bottomSectionY + 8;
          petX = padding g + 8 + of_nat i * (petBoxWidth + 4);
          petImageSize = 80;
          petImageX = petX + (petBoxWidth - petImageSize) / 2;
          petImageY = petBoxY + 36
      in \<lparr>rect_x = petImageX, rect_y = petImageY,
          rect_w = petImageSize, rect_h = petImageSize\<rparr>)"

definition drawPetImage :: "(string \<rightharpoonup> image) \<Rightarrow> rect \<Rightarrow> LibraryItem option \<Rightarrow> drawOp list" where
  "drawPetImage cache r pet =
     (case pet of
        Some p \<Rightarrow>
          (case resident cache (item_src p) of
             Some petImg \<Rightarrow> [StrokeRect r, DrawImage petImg r]
           | None \<Rightarrow> [])
      | None \<Rightarrow>
          [StrokeRect r,
           FillText emptyPetHint (rect_x r + rect_w r / 2) (rect_y r + rect_h r / 2)])"

text \<open>
  What can happen to the cache, one event at a time on the single UI thread: a call
  of \<open>loadImage\<close>, or the \<open>onload\<close> or \<open>onerror\<close> of a load.
\<close>

datatype cacheEvent = Request string | Loaded nat | Failed nat

fun cacheStep :: "cacheEvent \<Rightarrow> loader \<Rightarrow> loader" where
  "cacheStep (Request src) s = snd (loadImage src s)"
| "cacheStep (Loaded k) s = onload k s"
| "cacheStep (Failed k) s = onerror k s"

fun cacheRun :: "cacheEvent list \<Rightarrow> loader \<Rightarrow> loader" where
  "cacheRun [] s = s"
| "cacheRun (e # es) s = cacheRun es (cacheStep e s)"

text \<open>The cache holds a completed image of \<open>src\<close>, filed under its own \<open>src\<close>.\<close>

definition memoized :: "string \<Rightarrow> loader \<Rightarrow> bool" where
  "memoized src s =
     (case imageCache s src of None \<Rightarrow> False
      | Some img \<Rightarrow> complete img \<and> img_src img = src)"

text \<open>A promise already resolved with a completed image of \<open>src\<close>.\<close>

definition resolvedWith :: "string \<Rightarrow> promise \<Rightarrow> bool" where
  "resolvedWith src p =
     (case p of Resolved img \<Rightarrow> complete img \<and> img_src img = src
      | Pending k \<Rightarrow> False)"

section \<open>Note text layout\<close>

text \<open>
  Strings are lists of 8-bit characters. \<open>isWhiteSpace\<close> holds of the code points
  below 256 that JavaScript's \<open>trim\<close> and \<open>\s\<close> treat as white space: TAB, LF, VT,
  FF, CR, SPACE and NBSP.
\<close>

definition isWhiteSpace :: "char \<Rightarrow> bool" where
  "isWhiteSpace c \<longleftrightarrow> (of_char c :: nat) \<in> {9, 10, 11, 12, 13, 32, 160}"

definition newline :: char where
  "newline = CHR 0x0A"

text \<open>\<open>s.trim()\<close>\<close>

definition trim :: "string \<Rightarrow> string" where
  "trim s = rev (dropWhile isWhiteSpace (rev (dropWhile isWhiteSpace s)))"

text \<open>\<open>s.split(c)\<close> for a one-character separator; the result is never empty.\<close>

fun splitOn :: "char \<Rightarrow> string \<Rightarrow> string list" where
  "splitOn c [] = [[]]"
| "splitOn c (x # xs) =
     (if x = c then [] # splitOn c xs
      else (case splitOn c xs of [] \<Rightarrow> [[x]] | p # ps \<Rightarrow> (x # p) # ps))"

text \<open>\<open>s.split(/\s+/)\<close>: split at every maximal run of white space.\<close>

function splitWs :: "string \<Rightarrow> string list" where
  "splitWs [] = [[]]"
| "splitWs (x # xs) =
     (if isWhiteSpace x then [] # splitWs (dropWhile isWhiteSpace xs)
      else (case splitWs xs of [] \<Rightarrow> [[x]] | p # ps \<Rightarrow> (x # p) # ps))"
  by pat_completeness auto
termination
proof (relation "measure length")
  show "wf (measure length)"
    by simp
next
  fix x :: char and xs :: string
  have "length (dropWhile isWhiteSpace xs) \<le> length xs"
    by (rule length_dropWhile_le)
  then show "(dropWhile isWhiteSpace xs, x # xs) \<in> measure length"
    by simp
next
  fix x :: char and xs :: string
  show "(xs, x # xs) \<in> measure length"
    by simp
qed

text \<open>\<open>paragraph.trim().split(/\s+/).filter(word => word.length > 0)\<close>\<close>

definition wordsOf :: "string \<Rightarrow> string list" where
  "wordsOf paragraph = filter (\<lambda>word. length word > 0) (splitWs (trim paragraph))"

text \<open>
  The inner loop \<open>for (const word of words)\<close> (lines 1485-1498) on the pair
  (\<open>lines\<close>, \<open>currentLine\<close>); \<open>measureText\<close> is \<open>ctx.measureText(s).width\<close>, which
  the browser supplies. The first branch is the \<open>break\<close>.
\<close>

function wrapWords :: "(string \<Rightarrow> rat) \<Rightarrow> rat \<Rightarrow> nat \<Rightarrow> string list \<Rightarrow> string list \<times> string
    \<Rightarrow> string list \<times> string" where
  "wrapWords measureText noteAreaWidth maxLines [] (lines, currentLine) = (lines, currentLine)"
| "wrapWords measureText noteAreaWidth maxLines (word # rest) (lines, currentLine) =
     (if length lines \<ge> maxLines then (lines, currentLine)
      else
        (let testLine = (if currentLine \<noteq> [] then currentLine @ '' '' @ word else word)
         in if measureText testLine > noteAreaWidth \<and> currentLine \<noteq> []
            then wrapWords measureText noteAreaWidth maxLines rest (lines @ [currentLine], word)
            else wrapWords measureText noteAreaWidth maxLines rest (lines, testLine)))"
  by pat_completeness auto
termination
  by (relation "measure (\<lambda>(m, w, n, ws, st). length ws)") (simp_all (no_asm))

text \<open>
  The outer loop \<open>for (const paragraph of paragraphs)\<close> (lines 1470-1504) on
  \<open>lines\<close>: the \<open>break\<close>, the blank paragraph with its \<open>continue\<close>, and the wrapped
  paragraph with the push of its last line.
\<close>

function wrapParagraphs :: "(string \<Rightarrow> rat) \<Rightarrow> rat \<Rightarrow> nat \<Rightarrow> string list \<Rightarrow> string list
    \<Rightarrow> string list" where
  "wrapParagraphs measureText noteAreaWidth maxLines [] lines = lines"
| "wrapParagraphs measureText noteAreaWidth maxLines (paragraph # rest) lines =
     (if length lines \<ge> maxLines then lines
      else if length (trim paragraph) = 0
      then wrapParagraphs measureText noteAreaWidth maxLines rest
             (if length lines < maxLines then lines @ [''''] else lines)
      else
        (let words = wordsOf paragraph;
             (lines, currentLine) =
               wrapWords measureText noteAreaWidth maxLines words (lines, '''');
             lines = (if currentLine \<noteq> [] \<and> length lines < maxLines
                      then lines @ [currentLine] else lines)
         in wrapParagraphs measureText noteAreaWidth maxLines rest lines))"
  by pat_completeness auto
termination
  by (relation "measure (\<lambda>(m, w, n, ps, ls). length ps)") (simp_all (no_asm))

text \<open>
  The note text of \<open>drawCanvas\<close> (lines 1429-1434 and 1456-1512): the \<open>fillText\<close>
  calls, one per line. The background, the title and the clearing rectangle of the
  note region are drawn before and are not listed.
\<close>

definition noteAreaWidth :: "rat \<Rightarrow> canvasGeometry \<Rightarrow> rat" where
  "noteAreaWidth canvasWidth g =
     (let noteSectionWidth = (canvasWidth - padding g * 2 - 12) * (4 / 10);
          notePadding = 12
      in noteSectionWidth - notePadding * 2)"

definition noteAreaHeight :: "canvasGeometry \<Rightarrow> rat" where
  "noteAreaHeight g = (let notePadding = 12 in bottomSectionHeight g - 40 - notePadding)"

definition noteLines :: "(string \<Rightarrow> rat) \<Rightarrow> rat \<Rightarrow> canvasGeometry \<Rightarrow> string \<Rightarrow> string list" where
  "noteLines measureText canvasWidth g noteText =
     (let lineHeight = 20;
          maxLines = nat \<lfloor>noteAreaHeight g / lineHeight\<rfloor>;
          paragraphs = splitOn newline noteText
      in wrapParagraphs measureText (noteAreaWidth canvasWidth g) maxLines paragraphs [])"

definition drawNoteText :: "(string \<Rightarrow> rat) \<Rightarrow> rat \<Rightarrow> canvasGeometry \<Rightarrow> string \<Rightarrow> drawOp list" where
  "drawNoteText measureText canvasWidth g noteText =
     (let y = padding g + (slotsHeight g + 12);
          bottomSectionY = y;
          petSectionWidth = (canvasWidth - padding g * 2 - 12) * (6 / 10);
          noteX = padding g + petSectionWidth + 12;
          notePadding = 12;
          noteStartY = bottomSectionY + 40
      in if noteText \<noteq> [] \<and> trim noteText \<noteq> []
         then
           (let lineHeight = 20;
                maxLines = nat \<lfloor>noteAreaHeight g / lineHeight\<rfloor>;
                lines = noteLines measureText canvasWidth g noteText
            in map (\<lambda>idx. FillText (lines ! idx) (noteX + notePadding)
                             (noteStartY + of_nat idx * lineHeight))
                 [0 ..< min (length lines) maxLines])
         else [])"

text \<open>The text and the vertical position of a \<open>fillText\<close> call.\<close>

fun opText :: "drawOp \<Rightarrow> string" where
  "opText (FillText t x y) = t"
| "opText _ = []"

fun opY :: "drawOp \<Rightarrow> rat" where
  "opY (FillText t x y) = y"
| "opY _ = 0"

subsection \<open>Greedy wrapping as the specification words it\<close>

text \<open>
  The specification's reading of the note layout, written without the line budget:
  a line takes words, joined by single spaces, as long as the measured width of the
  joined text stays within the width; the first word of a line is taken whatever its
  width. A blank paragraph is one empty line. The note is the lines of its
  paragraphs in order, cut to the number of lines that fit.
\<close>

fun greedyFrom :: "(string \<Rightarrow> rat) \<Rightarrow> rat \<Rightarrow> string \<Rightarrow> string list \<Rightarrow> string list" where
  "greedyFrom m w line [] = [line]"
| "greedyFrom m w line (word # rest) =
     (if m (line @ '' '' @ word) \<le> w then greedyFrom m w (line @ '' '' @ word) rest
      else line # greedyFrom m w word rest)"

fun greedyWrap :: "(string \<Rightarrow> rat) \<Rightarrow> rat \<Rightarrow> string list \<Rightarrow> string list" where
  "greedyWrap m w [] = []"
| "greedyWrap m w (word # rest) = greedyFrom m w word rest"

definition paragraphLines :: "(string \<Rightarrow> rat) \<Rightarrow> rat \<Rightarrow> string \<Rightarrow> string list" where
  "paragraphLines m w paragraph =
     (if trim paragraph = [] then [''''] else greedyWrap m w (wordsOf paragraph))"

definition specNoteLines :: "(string \<Rightarrow> rat) \<Rightarrow> rat \<Rightarrow> nat \<Rightarrow> string \<Rightarrow> string list" where
  "specNoteLines m w maxLines noteText =
     take maxLines (concat (map (paragraphLines m w) (splitOn newline noteText)))"

text \<open>The non-empty pieces of \<open>s.split(/\s+/)\<close>: the words of \<open>s\<close>.\<close>

definition splitWords :: "string \<Rightarrow> string list" where
  "splitWords s = filter (\<lambda>word. length word > 0) (splitWs s)"

text \<open>Words as \<open>wordsOf\<close> yields them: non-empty and free of white space.\<close>

definition goodWords :: "string list \<Rightarrow> bool" where
  "goodWords ws \<longleftrightarrow> (\<forall>word\<in>set ws. word \<noteq> [] \<and> (\<forall>c\<in>set word. \<not> isWhiteSpace c))"

text \<open>A line fits: it is within the width, or it holds at most one word.\<close>

definition fits :: "(string \<Rightarrow> rat) \<Rightarrow> rat \<Rightarrow> string \<Rightarrow> bool" where
  "fits m w line \<longleftrightarrow> m line \<le> w \<or> length (wordsOf line) \<le> 1"

text \<open>A stand-in for \<open>measureText\<close> in the concrete cases: 8 pixels a character.\<close>

definition monoMeasure :: "string \<Rightarrow> rat" where
  "monoMeasure s = 8 * of_nat (length s)"

section \<open>Properties of the formation arrays\<close>

subsection \<open>Array reads and writes, occupancy counts\<close>

lemma getAt_setAt: "getAt (setAt f i v) j = (if j = i then v else getAt f j)"
  by (auto simp: getAt_def setAt_def nth_append)

lemma getAt_Cons_0: "getAt (x # xs) 0 = x"
  by (simp add: getAt_def)

lemma getAt_Cons_Suc: "getAt (x # xs) (Suc i) = getAt xs i"
  by (simp add: getAt_def)

lemma occ_Cons: "occ (x # xs) = (if x \<noteq> None then {0} else {}) \<union> Suc ` occ xs"
proof (rule set_eqI)
  fix i
  show "i \<in> occ (x # xs) \<longleftrightarrow> i \<in> (if x \<noteq> None then {0} else {}) \<union> Suc ` occ xs"
    by (cases i) (auto simp: occ_def getAt_Cons_0 getAt_Cons_Suc)
qed

lemma finite_occ: "finite (occ f)"
  by (rule finite_subset[of _ "{..<length f}"]) (auto simp: occ_def getAt_def split: if_splits)

lemma filled_card: "filled f = card (occ f)"
proof (induction f)
  case Nil show ?case by (simp add: filled_def occ_def getAt_def)
next
  case (Cons x xs)
  have "card (Suc ` occ xs) = card (occ xs)" by (simp add: card_image)
  moreover have "0 \<notin> Suc ` occ xs" by auto
  moreover have "finite (Suc ` occ xs)" using finite_occ by blast
  ultimately show ?case using Cons
    by (simp add: occ_Cons filled_def truthy_def)
qed

lemma laneOcc_Cons: "laneOcc k l (x # xs) =
   (if x \<noteq> None \<and> laneOf k = l then {0} else {}) \<union> Suc ` laneOcc (Suc k) l xs"
proof (rule set_eqI)
  fix i
  show "i \<in> laneOcc k l (x # xs) \<longleftrightarrow>
      i \<in> (if x \<noteq> None \<and> laneOf k = l then {0} else {}) \<union> Suc ` laneOcc (Suc k) l xs"
    by (cases i) (auto simp: laneOcc_def getAt_Cons_0 getAt_Cons_Suc)
qed

lemma finite_laneOcc: "finite (laneOcc k l f)"
  by (rule finite_subset[OF _ finite_occ[of f]]) (auto simp: laneOcc_def occ_def)

lemma card_Suc_laneOcc: "card (Suc ` laneOcc k l f) = card (laneOcc k l f)"
  by (simp add: card_image)

lemma length_countLanes: "length (countLanes k f lc) = length lc"
  by (induction f arbitrary: k lc) auto

lemma laneOf_lt3: "laneOf i < 3"
  by (simp add: laneOf_def)

lemma countLanes_card:
  "length lc = 3 \<Longrightarrow> l < 3 \<Longrightarrow>
   countLanes k f lc ! l = lc ! l + int (card (laneOcc k l f))"
proof (induction f arbitrary: k lc)
  case Nil show ?case by (simp add: laneOcc_def getAt_def)
next
  case (Cons x xs)
  have fin: "finite (Suc ` laneOcc (Suc k) l xs)" using finite_laneOcc by blast
  have notin: "0 \<notin> Suc ` laneOcc (Suc k) l xs" by auto
  show ?case
  proof (cases "truthy x")
    case False
    then show ?thesis using Cons.IH[of lc "Suc k"] Cons.prems
      by (simp add: laneOcc_Cons truthy_def card_Suc_laneOcc)
  next
    case True
    let ?lc = "lc[laneOf k := lc ! laneOf k + 1]"
    have "countLanes (Suc k) xs ?lc ! l = ?lc ! l + int (card (laneOcc (Suc k) l xs))"
      using Cons.IH[of ?lc "Suc k"] Cons.prems by simp
    then show ?thesis using True Cons.prems fin notin laneOf_lt3[of k]
      by (auto simp: laneOcc_Cons truthy_def card_Suc_laneOcc nth_list_update)
  qed
qed

lemma laneCountsOf_card: "l < 3 \<Longrightarrow> laneCountsOf f ! l = int (card (laneOcc 0 l f))"
  using countLanes_card[of "[0,0,0]" l 0 f] by (simp add: laneCountsOf_def nth_Cons')


lemma length_laneCountsOf: "length (laneCountsOf f) = 3"
  by (simp add: laneCountsOf_def length_countLanes)

lemma occ_setAt: "occ (setAt f i v) = (if v = None then occ f - {i} else insert i (occ f))"
  by (auto simp: occ_def getAt_setAt)

lemma laneOcc_setAt_None: "laneOcc 0 l (setAt f i None) = laneOcc 0 l f - {i}"
  by (auto simp: laneOcc_def getAt_setAt)

lemma laneOcc_setAt_Some:
  "laneOcc 0 l (setAt f i (Some x)) = (if laneOf i = l then insert i (laneOcc 0 l f) else laneOcc 0 l f)"
  by (auto simp: laneOcc_def getAt_setAt)

lemma findIndex_Some:
  "findIndex P xs = Some e \<Longrightarrow> e < length xs \<and> P (xs ! e) \<and> (\<forall>j<e. \<not> P (xs ! j))"
proof (induction xs arbitrary: e)
  case Nil then show ?case by simp
next
  case (Cons x xs)
  show ?case
  proof (cases "P x")
    case True then show ?thesis using Cons.prems by simp
  next
    case False
    then obtain e' where e': "findIndex P xs = Some e'" "e = Suc e'"
      using Cons.prems by auto
    from Cons.IH[OF e'(1)] False e'(2) show ?thesis
      by (auto simp: less_Suc_eq_0_disj)
  qed
qed

lemma findIndex_None: "findIndex P xs = None \<Longrightarrow> \<forall>x\<in>set xs. \<not> P x"
  by (induction xs) (auto split: if_splits)

lemma cinv_clear: "cinv f \<Longrightarrow> cinv (setAt f i None)"
  unfolding cinv_def occ_setAt laneOcc_setAt_None
  by (auto intro: order_trans[OF card_Diff1_le])

lemma cinv_place:
  assumes "cinv f"
    and "getAt f i \<noteq> None \<or> (card (occ f) < 5 \<and> card (laneOcc 0 (laneOf i) f) < 2)"
  shows "cinv (setAt f i (Some x))"
proof (cases "getAt f i = None")
  case False
  then have "i \<in> occ f" "i \<in> laneOcc 0 (laneOf i) f" by (auto simp: occ_def laneOcc_def)
  then show ?thesis using assms(1)
    unfolding cinv_def occ_setAt laneOcc_setAt_Some by (auto simp: insert_absorb)
next
  case True
  then have lt: "card (occ f) < 5" "card (laneOcc 0 (laneOf i) f) < 2" using assms(2) by auto
  have "card (insert i (occ f)) \<le> 5" using lt(1) finite_occ[of f]
    by (simp add: card_insert_if)
  moreover have "card (insert i (laneOcc 0 (laneOf i) f)) \<le> 2"
    using lt(2) finite_laneOcc[of 0 "laneOf i" f] by (simp add: card_insert_if)
  ultimately show ?thesis using assms(1)
    unfolding cinv_def occ_setAt laneOcc_setAt_Some by auto
qed

lemma cinv_assignFormation: "cinv prev \<Longrightarrow> cinv (assignFormation index item prev)"
proof (cases item)
  case None
  assume "cinv prev"
  then show ?thesis using None by (simp add: assignFormation_def cinv_clear)
next
  case (Some it)
  assume inv: "cinv prev"
  let ?P = "\<lambda>s. case s of None \<Rightarrow> False | Some x \<Rightarrow> item_id x = item_id it"
  show ?thesis
  proof (cases "findIndex ?P prev")
    case None
    show ?thesis using Some None inv
      by (auto simp: assignFormation_def Let_def filled_card laneCountsOf_card laneOf_lt3
            truthy_def intro!: cinv_place)
  next
    case (Some e)
    note fe = findIndex_Some[OF Some]
    then have e_occ: "getAt prev e \<noteq> None" by (auto simp: getAt_def split: option.splits)
    let ?next = "setAt prev e None"
    have inv': "cinv ?next" using inv by (rule cinv_clear)
    have c1: "card (occ ?next) \<le> card (occ prev)"
      unfolding occ_setAt by (simp add: card_Diff1_le)
    have e_in: "e \<in> laneOcc 0 (laneOf e) prev" using e_occ by (simp add: laneOcc_def)
    have lc: "(laneCountsOf prev)[laneOf e := laneCountsOf prev ! laneOf e - 1] ! l
                = int (card (laneOcc 0 l ?next))" if "l < 3" for l
    proof (cases "l = laneOf e")
      case True
      have "card (laneOcc 0 l prev - {e}) = card (laneOcc 0 l prev) - 1"
        using e_in True finite_laneOcc by (simp add: card_Diff_singleton)
      moreover have "card (laneOcc 0 l prev) \<ge> 1"
        using e_in True finite_laneOcc[of 0 l prev] by (metis card_gt_0_iff empty_iff less_eq_Suc_le One_nat_def)
      ultimately show ?thesis using True that
        by (simp add: laneOcc_setAt_None laneCountsOf_card length_laneCountsOf)
    next
      case False
      have "e \<notin> laneOcc 0 l prev" using False by (auto simp: laneOcc_def)
      then show ?thesis using False that
        by (simp add: laneOcc_setAt_None laneCountsOf_card)
    qed
    show ?thesis
    proof (cases "e = index")
      case True
      then show ?thesis using \<open>item = Some it\<close> Some inv'
        by (simp add: assignFormation_def Let_def)
    next
      case False
      show ?thesis using \<open>item = Some it\<close> Some False inv inv' c1 lc[OF laneOf_lt3[of index]]
        by (auto simp: assignFormation_def Let_def filled_card truthy_def intro!: cinv_place)
    qed
  qed
qed

lemma findIndex_None_iff: "findIndex P xs = None \<longleftrightarrow> (\<forall>x\<in>set xs. \<not> P x)"
  by (induction xs) auto

lemma getAt_initial: "getAt initialFormation i = None"
proof (cases "i < length initialFormation")
  case True
  then have "initialFormation ! i \<in> set initialFormation"
    by (rule nth_mem)
  then show ?thesis
    using True by (simp add: getAt_def initialFormation_def)
next
  case False
  then show ?thesis by (simp add: getAt_def)
qed

lemma cinv_initial: "cinv initialFormation"
  by (simp add: cinv_def occ_def laneOcc_def getAt_initial)

lemma cinv_assignAll: "cinv f \<Longrightarrow> cinv (assignAll calls f)"
  by (induction calls f rule: assignAll.induct) (simp_all add: cinv_assignFormation)

lemma getAt_assignPet_None:
  "getAt (assignPetFormation index None prev) j = (if j = index then None else getAt prev j)"
proof (cases "findIndex (\<lambda>s. map_option item_id s = map_option item_id None) prev")
  case None
  then show ?thesis by (simp add: assignPetFormation_def getAt_setAt)
next
  case (Some e)
  from findIndex_Some[OF Some] have "getAt prev e = None" by (simp add: getAt_def)
  then show ?thesis using Some
    by (auto simp add: assignPetFormation_def getAt_setAt)
qed

subsection \<open>Capacity of the character formation\<close>

text \<open>
  Claim C1. Start from the six empty positions and apply any sequence of
  \<open>assignFormation\<close> calls, with any indices and any assets or \<open>null\<close>. At every
  point of the run, that is after the first \<open>n\<close> calls for any \<open>n\<close>, the number of
  occupied positions (\<open>filled\<close>, as the code counts it) is at most 5, and each of the
  three lane counters that the code computes is at most 2. The code's lane of a
  position is \<open>0\<close> for positions 0-1, \<open>1\<close> for positions 2-3 and \<open>2\<close> for every
  position from 4 on, so the third counter bounds positions 4-5.
\<close>

theorem assignFormation_capacity_invariant:
  "filled (assignAll (take n calls) initialFormation) \<le> 5
   \<and> laneCountsOf (assignAll (take n calls) initialFormation) ! 0 \<le> 2
   \<and> laneCountsOf (assignAll (take n calls) initialFormation) ! 1 \<le> 2
   \<and> laneCountsOf (assignAll (take n calls) initialFormation) ! 2 \<le> 2"
proof -
  have "cinv (assignAll (take n calls) initialFormation)"
    using cinv_initial by (rule cinv_assignAll)
  then show ?thesis
    by (simp add: cinv_def filled_card laneCountsOf_card)
qed

subsection \<open>Relocation inside a full formation\<close>

text \<open>
  Where a relocation goes through: the asset is first held at another position \<open>q\<close>,
  and the target is occupied, or fewer than five positions are occupied and the target
  lane, counted without \<open>q\<close>, holds fewer than two. Then \<open>q\<close> is emptied and the
  asset placed at the target.
\<close>

lemma assignFormation_relocates:
  assumes "findIndex (\<lambda>s. case s of None \<Rightarrow> False | Some x \<Rightarrow> item_id x = item_id it) prev
             = Some q"
    and "q \<noteq> index"
    and "getAt prev index \<noteq> None
         \<or> (filled prev < 5
             \<and> (laneCountsOf prev)[laneOf q := laneCountsOf prev ! laneOf q - 1] ! laneOf index < 2)"
  shows "assignFormation index (Some it) prev = setAt (setAt prev q None) index (Some it)"
proof -
  have "getAt (setAt prev q None) index = getAt prev index"
    using assms(2) by (simp add: getAt_setAt)
  then show ?thesis
    using assms by (auto simp: assignFormation_def Let_def truthy_def)
qed

text \<open>
  Claim C2, at the input where the code departs from it. Five distinct characters
  occupy positions 0-4 and position 5 is empty. Moving the character of position 0 to
  position 5 would leave five occupied positions, yet the code returns the previous
  array: \<open>filled\<close> is computed before the move and, unlike the lane counter of the
  old position, is not reduced when the old position is vacated.
\<close>

theorem assignFormation_full_relocation_rejected:
  "assignFormation 5 (Some (sampleItem ''A''))
     [Some (sampleItem ''A''), Some (sampleItem ''B''), Some (sampleItem ''C''),
      Some (sampleItem ''D''), Some (sampleItem ''E''), None]
   = [Some (sampleItem ''A''), Some (sampleItem ''B''), Some (sampleItem ''C''),
      Some (sampleItem ''D''), Some (sampleItem ''E''), None]"
  by (simp add: assignFormation_def sampleItem_def getAt_def setAt_def filled_def truthy_def
        laneCountsOf_def laneOf_def)

subsection \<open>Rejected assignments\<close>

text \<open>
  Claim C3. Let the asset be new to the formation (no position holds its id) and the
  target position be empty. If five positions are already occupied, or the lane counter
  of the target position is already 2, then \<open>assignFormation\<close> returns the previous
  array itself: every position is as before. The function is total and has no error
  value, as the source has no \<open>throw\<close>.
\<close>

theorem assignFormation_reject_unchanged:
  assumes "Some (item_id it) \<notin> set (map (map_option item_id) prev)"
    and "getAt prev index = None"
    and "filled prev \<ge> 5 \<or> laneCountsOf prev ! laneOf index \<ge> 2"
  shows "assignFormation index (Some it) prev = prev"
proof -
  have "findIndex (\<lambda>s. case s of None \<Rightarrow> False | Some x \<Rightarrow> item_id x = item_id it) prev
          = None"
    using assms(1) by (force simp: findIndex_None_iff split: option.splits)
  then show ?thesis
    using assms(2,3) by (auto simp: assignFormation_def Let_def truthy_def)
qed

text \<open>
  Two instances: a sixth character for the one empty position of a formation holding
  five, and a third character for the front lane (a write at index 6, the only way to
  find an empty position in a lane that holds two).
\<close>

theorem assignFormation_reject_unchanged_witness:
  "filled [Some (sampleItem ''A''), Some (sampleItem ''B''), Some (sampleItem ''C''),
           Some (sampleItem ''D''), Some (sampleItem ''E''), None] = 5
   \<and> assignFormation 5 (Some (sampleItem ''F''))
       [Some (sampleItem ''A''), Some (sampleItem ''B''), Some (sampleItem ''C''),
        Some (sampleItem ''D''), Some (sampleItem ''E''), None]
     = [Some (sampleItem ''A''), Some (sampleItem ''B''), Some (sampleItem ''C''),
        Some (sampleItem ''D''), Some (sampleItem ''E''), None]
   \<and> laneCountsOf [Some (sampleItem ''A''), None, None, None,
                    Some (sampleItem ''D''), Some (sampleItem ''E'')] ! laneOf 6 = 2
   \<and> assignFormation 6 (Some (sampleItem ''F''))
       [Some (sampleItem ''A''), None, None, None,
        Some (sampleItem ''D''), Some (sampleItem ''E'')]
     = [Some (sampleItem ''A''), None, None, None,
        Some (sampleItem ''D''), Some (sampleItem ''E'')]"
  using assignFormation_reject_unchanged [of "sampleItem ''F''"
     "[Some (sampleItem ''A''), Some (sampleItem ''B''), Some (sampleItem ''C''),
       Some (sampleItem ''D''), Some (sampleItem ''E''), None]" 5]
    assignFormation_reject_unchanged [of "sampleItem ''F''"
     "[Some (sampleItem ''A''), None, None, None,
       Some (sampleItem ''D''), Some (sampleItem ''E'')]" 6]
  by (simp add: sampleItem_def getAt_def filled_def truthy_def laneCountsOf_def laneOf_def)

subsection \<open>The move and toggle scenario\<close>

text \<open>
  Claim C4. For any asset \<open>A\<close>: from the empty formation, assigning \<open>A\<close> to position 0
  puts it there (one occupied position, one in the back lane); assigning \<open>A\<close> to
  position 1 then empties position 0 and fills position 1 (the counts stay 1);
  assigning \<open>A\<close> to position 1 once more empties it (no occupied position). The
  arrays are given in full, so every other position is seen to stay empty.
\<close>

theorem assignFormation_scenario:
  "assignFormation 0 (Some A) initialFormation = [Some A, None, None, None, None, None]
   \<and> filled [Some A, None, None, None, None, None] = 1
   \<and> laneCountsOf [Some A, None, None, None, None, None] = [1, 0, 0]
   \<and> assignFormation 1 (Some A) [Some A, None, None, None, None, None]
       = [None, Some A, None, None, None, None]
   \<and> filled [None, Some A, None, None, None, None] = 1
   \<and> laneCountsOf [None, Some A, None, None, None, None] = [1, 0, 0]
   \<and> assignFormation 1 (Some A) [None, Some A, None, None, None, None]
       = [None, None, None, None, None, None]
   \<and> filled [None, None, None, None, None, None :: LibraryItem option] = 0"
  by (simp add: assignFormation_def initialFormation_def filled_def laneCountsOf_def
        truthy_def laneOf_def getAt_def setAt_def)

subsection \<open>The pet formation\<close>

text \<open>
  Claim C5 as stated fails at the toggle: assigning a pet to the position that already
  holds it leaves the pet there. The source guards the vacating write with
  \<open>existingIdx !== index\<close> and then writes the item to the target; emptying an occupied
  position is what the callers do, by passing \<open>null\<close>.
\<close>

theorem assignPetFormation_no_toggle:
  "assignPetFormation 0 (Some (sampleItem ''P'')) [Some (sampleItem ''P''), None, None]
     = [Some (sampleItem ''P''), None, None]
   \<and> getAt (assignPetFormation 0 (Some (sampleItem ''P''))
              [Some (sampleItem ''P''), None, None]) 0 \<noteq> None"
  by (simp add: assignPetFormation_def sampleItem_def getAt_def setAt_def)

text \<open>
  Claim C5, amended. Read position by position (\<open>j\<close> is any position):
  passing \<open>null\<close> empties the target and changes nothing else; assigning a pet whose id
  is first held at position \<open>q\<close> puts the pet at the target and, when \<open>q\<close> is another
  position, empties \<open>q\<close>, changing nothing else (so for \<open>q\<close> the target itself the pet
  stays, there is no toggle-off); assigning a pet held nowhere puts it at the target
  and changes nothing else. No capacity check is made.
\<close>

theorem assignPetFormation_move_or_clear:
  "getAt (assignPetFormation index None prev) j = (if j = index then None else getAt prev j)
   \<and> (findIndex (\<lambda>s. map_option item_id s = Some (item_id it)) prev = Some q \<longrightarrow>
        getAt (assignPetFormation index (Some it) prev) j
          = (if j = index then Some it else if j = q then None else getAt prev j))
   \<and> (findIndex (\<lambda>s. map_option item_id s = Some (item_id it)) prev = None \<longrightarrow>
        getAt (assignPetFormation index (Some it) prev) j
          = (if j = index then Some it else getAt prev j))"
  using getAt_assignPet_None[of index prev j]
  by (auto simp: assignPetFormation_def getAt_setAt)

theorem assignPetFormation_move_or_clear_witness:
  "findIndex (\<lambda>s. map_option item_id s = Some (item_id (sampleItem ''P'')))
     [Some (sampleItem ''P''), Some (sampleItem ''Q''), None] = Some 0
   \<and> getAt (assignPetFormation 2 (Some (sampleItem ''P''))
              [Some (sampleItem ''P''), Some (sampleItem ''Q''), None]) 0 = None
   \<and> getAt (assignPetFormation 2 (Some (sampleItem ''P''))
              [Some (sampleItem ''P''), Some (sampleItem ''Q''), None]) 1
       = Some (sampleItem ''Q'')
   \<and> getAt (assignPetFormation 2 (Some (sampleItem ''P''))
              [Some (sampleItem ''P''), Some (sampleItem ''Q''), None]) 2
       = Some (sampleItem ''P'')
   \<and> findIndex (\<lambda>s. map_option item_id s = Some (item_id (sampleItem ''R'')))
     [Some (sampleItem ''P''), Some (sampleItem ''Q''), None] = None
   \<and> getAt (assignPetFormation 2 (Some (sampleItem ''R''))
              [Some (sampleItem ''P''), Some (sampleItem ''Q''), None]) 2
       = Some (sampleItem ''R'')"
  using assignPetFormation_move_or_clear [where index = 2 and j = 0 and q = 0
      and it = "sampleItem ''P''"
      and prev = "[Some (sampleItem ''P''), Some (sampleItem ''Q''), None]"]
    assignPetFormation_move_or_clear [where index = 2 and j = 1 and q = 0
      and it = "sampleItem ''P''"
      and prev = "[Some (sampleItem ''P''), Some (sampleItem ''Q''), None]"]
    assignPetFormation_move_or_clear [where index = 2 and j = 2 and q = 0
      and it = "sampleItem ''P''"
      and prev = "[Some (sampleItem ''P''), Some (sampleItem ''Q''), None]"]
    assignPetFormation_move_or_clear [where index = 2 and j = 2 and q = 0
      and it = "sampleItem ''R''"
      and prev = "[Some (sampleItem ''P''), Some (sampleItem ''Q''), None]"]
  by (simp add: sampleItem_def getAt_def)

section \<open>Properties of the canvas geometry\<close>

lemma drawGeometry_1280:
  "drawGeometry 1280 None =
     \<lparr>padding = 16, slotWidth = 1184 / 5, charImageHeight = 280, cardImageHeight = 280,
      equipSize = 52, slotsHeight = 644, bottomSectionHeight = 180,
      calculatedHeight = 868, canvasHeight = 868\<rparr>"
  by (simp add: drawGeometry_def Let_def)

lemma canvasLayout_value:
  "canvasLayout =
     \<lparr>layout_padding = 16, layout_slotWidth = 1184 / 5, layout_charImageHeight = 280,
      layout_cardImageHeight = 280, layout_equipSize = 52, layout_slotPadding = 8,
      layout_gap = 16\<rparr>"
  by (simp add: canvasLayout_def Let_def)

text \<open>
  Claim C6. At the width 1280 that the page passes to the canvas, for every slot index
  and every equipment index, the overlay button of the character image, of the card
  image and of the equipment cell has the same x, y, width and height as the rectangle
  at which \<open>drawCanvas\<close> draws that sub-region.
\<close>

theorem overlay_matches_drawCanvas:
  "overlayCharRect idx = drawCharRect (drawGeometry 1280 None) idx
   \<and> overlayCardRect idx = drawCardRect (drawGeometry 1280 None) idx
   \<and> overlayEquipRect idx equipIdx = drawEquipRect (drawGeometry 1280 None) idx equipIdx"
  unfolding drawGeometry_1280
  by (simp add: overlayCharRect_def overlayCardRect_def overlayEquipRect_def
        overlaySlotOrigin_def canvasLayout_value drawCharRect_def drawCardRect_def
        drawEquipRect_def Let_def algebra_simps)

text \<open>
  Claim C9 as stated fails: called with the width \<open>0\<close> on a ready canvas,
  \<open>drawCanvas\<close> signals nothing and goes on with a slot width of \<open>-96/5\<close> and
  negative image heights.
\<close>

theorem drawCanvas_zero_width_no_error:
  "drawCanvas True 0 None =
     Inr (Some \<lparr>padding = 16, slotWidth = - (96 / 5), charImageHeight = - (128 / 5),
                cardImageHeight = - (768 / 25), equipSize = 52,
                slotsHeight = 84 - 1408 / 25, bottomSectionHeight = 180,
                calculatedHeight = 308 - 1408 / 25, canvasHeight = 308 - 1408 / 25\<rparr>)
   \<and> drawCanvas True 0 None \<noteq> Inl InvalidInput"
  by (simp add: drawCanvas_def drawGeometry_def Let_def)

text \<open>
  Claim C9, amended. \<open>drawCanvas\<close> does not validate the width: for every width, and
  so for every non-positive one, it returns without an error, and on a ready canvas it
  has computed the geometry by the usual formulas; for a non-positive width the slot
  width \<open>(width - 96) / 5\<close> and both image heights are negative.
\<close>

theorem drawCanvas_never_rejects_width:
  "drawCanvas surfaceReady width targetHeight \<noteq> Inl e
   \<and> drawCanvas True width targetHeight = Inr (Some (drawGeometry width targetHeight))
   \<and> slotWidth (drawGeometry width targetHeight) = (width - 96) / 5
   \<and> (width \<le> 0 \<longrightarrow>
        slotWidth (drawGeometry width targetHeight) < 0
        \<and> charImageHeight (drawGeometry width targetHeight) < 0
        \<and> cardImageHeight (drawGeometry width targetHeight) < 0)"
  by (simp add: drawCanvas_def drawGeometry_def Let_def min_def)

theorem drawCanvas_never_rejects_width_witness:
  "(-100 :: rat) \<le> 0
   \<and> drawCanvas True (-100) None \<noteq> Inl InvalidInput
   \<and> slotWidth (drawGeometry (-100) None) = - (196 / 5)
   \<and> slotWidth (drawGeometry (-100) None) < 0"
  using drawCanvas_never_rejects_width [of True "-100" None InvalidInput]
  by simp

section \<open>Properties of the image cache and the draw pass\<close>

text \<open>
  Claim C8, at the inputs where the code departs from it. With nothing in the cache,
  an assigned weapon gets only the background and border that every equipment cell
  gets, and an assigned pet gets nothing at all: no fallback rectangle and no name.
  The character and card branches do draw both.
\<close>

theorem equip_and_pet_have_no_placeholder:
  "drawEquipCell Map.empty (drawEquipRect (drawGeometry 1280 None) 0 0) weapon
       (Some (sampleItem ''Sword''))
     = [FillRoundRect (drawEquipRect (drawGeometry 1280 None) 0 0),
        StrokeRoundRect (drawEquipRect (drawGeometry 1280 None) 0 0)]
   \<and> drawPetImage Map.empty (drawPetRect 1280 (drawGeometry 1280 None) 0)
       (Some (sampleItem ''Cat'')) = []
   \<and> drawCharImage Map.empty (drawCharRect (drawGeometry 1280 None) 0)
       (Some (sampleItem ''Hero''))
     = [FillRect (drawCharRect (drawGeometry 1280 None) 0),
        FillText ''Hero'' (16 + 8 + (1184 / 5 - 16) / 2) (16 + 8 + 280 / 2)]
   \<and> drawCardImage Map.empty (drawCardRect (drawGeometry 1280 None) 0)
       (Some (sampleItem ''Ace''))
     = [FillRect (drawCardRect (drawGeometry 1280 None) 0),
        FillText ''Ace'' (16 + 8 + (1184 / 5 - 16) / 2) (16 + 8 + 280 + 12 + 280 / 2)]"
  by (simp add: drawEquipCell_def drawPetImage_def drawCharImage_def drawCardImage_def
        resident_def sampleItem_def drawCharRect_def drawCardRect_def drawGeometry_1280
        Let_def)

text \<open>
  Claim C10 as stated fails: two requests for one \<open>src\<close>, the second made before any
  load has completed, create two images, that is two loads, and return two different
  promises.
\<close>

theorem loadImage_not_coalesced:
  "fst (loadImage ''/a.png'' emptyLoader) = Pending 0
   \<and> fst (loadImage ''/a.png'' (snd (loadImage ''/a.png'' emptyLoader))) = Pending 1
   \<and> loads (snd (loadImage ''/a.png'' (snd (loadImage ''/a.png'' emptyLoader))))
       = [''/a.png'', ''/a.png'']"
  by (simp add: loadImage_def emptyLoader_def)

lemma memoized_step: "memoized src s \<Longrightarrow> memoized src (cacheStep e s)"
  by (cases e) (auto simp: memoized_def loadImage_def onload_def onerror_def Let_def
                 split: option.splits)

lemma memoized_run: "memoized src s \<Longrightarrow> memoized src (cacheRun es s)"
  by (induction es arbitrary: s) (simp_all add: memoized_step)

lemma memoized_onload: "k < length (loads s) \<Longrightarrow> memoized (loads s ! k) (onload k s)"
  by (simp add: memoized_def onload_def)

lemma memoized_loadImage:
  "memoized src s \<Longrightarrow> loadImage src s = (Resolved (the (imageCache s src)), s)"
  by (auto simp: memoized_def loadImage_def split: option.splits)

lemma requests_uncached:
  "imageCache s src = None \<Longrightarrow>
   loads (cacheRun (replicate n (Request src)) s) = loads s @ replicate n src
   \<and> imageCache (cacheRun (replicate n (Request src)) s) = imageCache s"
proof (induction n arbitrary: s)
  case 0
  show ?case by simp
next
  case (Suc n)
  let ?s = "snd (loadImage src s)"
  have s': "?s = s\<lparr>loads := loads s @ [src]\<rparr>"
    using Suc.prems by (simp add: loadImage_def)
  then have "imageCache ?s src = None" using Suc.prems by simp
  from Suc.IH[OF this] s' show ?case
    by (simp add: replicate_app_Cons_same)
qed

text \<open>
  Claim C10, amended. A request made while the cache has no image for \<open>src\<close> starts
  a load of its own and returns a promise of its own, whether or not an earlier request
  for \<open>src\<close> is still in flight: \<open>n\<close> such requests in a row start \<open>n\<close>
  loads. Once load \<open>k\<close> of \<open>src\<close> has fired \<open>onload\<close>, a request for \<open>src\<close>
  resolves at once with the image of that load; and after any further requests,
  completions and failures the cache still holds an entry for \<open>src\<close>, and a request
  for \<open>src\<close> resolves at once with exactly that entry, a completed image of
  \<open>src\<close>, and starts no load.
\<close>

theorem loadImage_memoizes_completed_only:
  "(imageCache s src = None \<longrightarrow>
      loadImage src s = (Pending (length (loads s)), s\<lparr>loads := loads s @ [src]\<rparr>)
      \<and> loads (cacheRun (replicate n (Request src)) s) = loads s @ replicate n src)
   \<and> (k < length (loads s) \<and> loads s ! k = src \<longrightarrow>
        loadImage src (onload k s)
          = (Resolved \<lparr>img_load = k, img_src = src, complete = True\<rparr>, onload k s)
        \<and> imageCache (cacheRun es (onload k s)) src \<noteq> None
        \<and> fst (loadImage src (cacheRun es (onload k s)))
            = Resolved (the (imageCache (cacheRun es (onload k s)) src))
        \<and> snd (loadImage src (cacheRun es (onload k s))) = cacheRun es (onload k s)
        \<and> resolvedWith src (fst (loadImage src (cacheRun es (onload k s)))))"
proof -
  have a: "imageCache s src = None \<longrightarrow>
      loadImage src s = (Pending (length (loads s)), s\<lparr>loads := loads s @ [src]\<rparr>)"
    by (simp add: loadImage_def)
  have b: "imageCache s src = None \<longrightarrow>
      loads (cacheRun (replicate n (Request src)) s) = loads s @ replicate n src"
    using requests_uncached[of s src n] by simp
  have c: "loadImage src (onload k s)
          = (Resolved \<lparr>img_load = k, img_src = src, complete = True\<rparr>, onload k s)
        \<and> imageCache (cacheRun es (onload k s)) src \<noteq> None
        \<and> fst (loadImage src (cacheRun es (onload k s)))
            = Resolved (the (imageCache (cacheRun es (onload k s)) src))
        \<and> snd (loadImage src (cacheRun es (onload k s))) = cacheRun es (onload k s)
        \<and> resolvedWith src (fst (loadImage src (cacheRun es (onload k s))))"
    if k: "k < length (loads s)" "loads s ! k = src"
  proof -
    let ?t = "cacheRun es (onload k s)"
    have first: "loadImage src (onload k s)
          = (Resolved \<lparr>img_load = k, img_src = src, complete = True\<rparr>, onload k s)"
      using k by (simp add: loadImage_def onload_def)
    have mem: "memoized src ?t"
      using memoized_onload[OF k(1)] k(2) memoized_run by auto
    then have cached: "imageCache ?t src \<noteq> None"
      by (auto simp: memoized_def split: option.splits)
    have eq: "loadImage src ?t = (Resolved (the (imageCache ?t src)), ?t)"
      using mem by (rule memoized_loadImage)
    have "resolvedWith src (Resolved (the (imageCache ?t src)))"
      using mem by (auto simp: memoized_def resolvedWith_def split: option.splits)
    then show ?thesis
      using first cached eq by simp
  qed
  from a b c show ?thesis by blast
qed

theorem loadImage_memoizes_completed_only_witness:
  "imageCache (snd (loadImage ''/a.png'' emptyLoader)) ''/a.png'' = None
   \<and> loads (snd (loadImage ''/a.png'' emptyLoader)) = [''/a.png'']
   \<and> loads (cacheRun [Request ''/a.png'', Request ''/a.png'']
              (snd (loadImage ''/a.png'' emptyLoader)))
       = [''/a.png'', ''/a.png'', ''/a.png'']
   \<and> imageCache (cacheRun [Request ''/b.png'', Failed 1, Request ''/a.png'']
            (onload 0 (snd (loadImage ''/a.png'' emptyLoader)))) ''/a.png''
       = Some \<lparr>img_load = 0, img_src = ''/a.png'', complete = True\<rparr>
   \<and> fst (loadImage ''/a.png''
         (cacheRun [Request ''/b.png'', Failed 1, Request ''/a.png'']
            (onload 0 (snd (loadImage ''/a.png'' emptyLoader)))))
       = Resolved \<lparr>img_load = 0, img_src = ''/a.png'', complete = True\<rparr>
   \<and> loads (snd (loadImage ''/a.png''
         (cacheRun [Request ''/b.png'', Failed 1, Request ''/a.png'']
            (onload 0 (snd (loadImage ''/a.png'' emptyLoader))))))
       = [''/a.png'', ''/b.png'']"
  using loadImage_memoizes_completed_only [where s = "snd (loadImage ''/a.png'' emptyLoader)"
      and src = "''/a.png''" and k = 0 and n = 2
      and es = "[Request ''/b.png'', Failed 1, Request ''/a.png'']"]
  by (simp add: loadImage_def emptyLoader_def onload_def onerror_def resolvedWith_def
        numeral_2_eq_2)

section \<open>Properties of the note text layout\<close>

subsection \<open>The loops compute the greedy wrapping, cut to the line budget\<close>

lemma wrapWords_greedyFrom:
  "cur \<noteq> [] \<Longrightarrow> [] \<notin> set ws \<Longrightarrow> length ls \<le> n \<Longrightarrow>
   (case wrapWords m w n ws (ls, cur) of
      (ls', c) \<Rightarrow> if c \<noteq> [] \<and> length ls' < n then ls' @ [c] else ls')
     = take n (ls @ greedyFrom m w cur ws)"
proof (induction ws arbitrary: ls cur)
  case Nil
  then show ?case by simp
next
  case (Cons word rest)
  show ?case
  proof (cases "n \<le> length ls")
    case True
    then show ?thesis using Cons.prems by simp
  next
    case False
    let ?t = "cur @ '' '' @ word"
    have word: "word \<noteq> []" and rest: "[] \<notin> set rest"
      using Cons.prems(2) by auto
    show ?thesis
    proof (cases "m ?t \<le> w")
      case True
      have "?t \<noteq> []" using Cons.prems(1) by simp
      from Cons.IH[OF this rest Cons.prems(3)] True False Cons.prems(1)
      show ?thesis by (simp add: Let_def)
    next
      case gt: False
      have len: "length (ls @ [cur]) \<le> n" using False by simp
      from Cons.IH[OF word rest len] gt False Cons.prems(1)
      show ?thesis by (simp add: Let_def not_le)
    qed
  qed
qed

lemma wrapWords_greedyWrap:
  assumes "[] \<notin> set ws" and "length ls < n"
  shows "(case wrapWords m w n ws (ls, []) of
      (ls', c) \<Rightarrow> if c \<noteq> [] \<and> length ls' < n then ls' @ [c] else ls')
     = take n (ls @ greedyWrap m w ws)"
proof (cases ws)
  case Nil
  then show ?thesis using assms(2) by simp
next
  case (Cons word rest)
  have word: "word \<noteq> []" and rest: "[] \<notin> set rest"
    using assms(1) Cons by auto
  have len: "length ls \<le> n" using assms(2) by simp
  from wrapWords_greedyFrom[OF word rest len, of m w] assms(2) Cons
  show ?thesis by (simp add: Let_def)
qed

lemma take_take_append: "take n (take n xs @ ys) = take n (xs @ ys)"
  by (simp add: take_append min_def)

lemma wordsOf_nonempty: "[] \<notin> set (wordsOf p)"
  by (simp add: wordsOf_def)

lemma wrapParagraphs_spec:
  "length ls \<le> n \<Longrightarrow>
   wrapParagraphs m w n ps ls = take n (ls @ concat (map (paragraphLines m w) ps))"
proof (induction ps arbitrary: ls)
  case Nil
  then show ?case by simp
next
  case (Cons p rest)
  show ?case
  proof (cases "n \<le> length ls")
    case True
    then show ?thesis using Cons.prems by simp
  next
    case False
    then have lt: "length ls < n" by simp
    show ?thesis
    proof (cases "trim p = []")
      case True
      have "length (ls @ ['''']) \<le> n" using lt by simp
      from Cons.IH[OF this] True lt show ?thesis
        by (simp add: paragraphLines_def)
    next
      case nb: False
      let ?ls' = "take n (ls @ greedyWrap m w (wordsOf p))"
      obtain x1 x2 where ww: "wrapWords m w n (wordsOf p) (ls, []) = (x1, x2)"
        by (cases "wrapWords m w n (wordsOf p) (ls, [])") auto
      have fin: "(if x2 \<noteq> [] \<and> length x1 < n then x1 @ [x2] else x1) = ?ls'"
        using wrapWords_greedyWrap[OF wordsOf_nonempty lt, of m w p] ww by simp
      have step: "wrapParagraphs m w n (p # rest) ls
                    = wrapParagraphs m w n rest
                        (if x2 \<noteq> [] \<and> length x1 < n then x1 @ [x2] else x1)"
        using nb lt ww by (simp add: Let_def)
      have "length ?ls' \<le> n" by simp
      from Cons.IH[OF this]
      have "wrapParagraphs m w n rest ?ls'
              = take n (ls @ greedyWrap m w (wordsOf p) @ concat (map (paragraphLines m w) rest))"
        by (simp add: take_take_append del: take_append)
      moreover have "paragraphLines m w p = greedyWrap m w (wordsOf p)"
        using nb by (simp add: paragraphLines_def)
      ultimately show ?thesis
        unfolding step fin by (simp del: take_append)
    qed
  qed
qed

subsection \<open>Words of a string\<close>

lemma splitWs_ws: "isWhiteSpace x \<Longrightarrow> splitWs (x # xs) = [] # splitWs (dropWhile isWhiteSpace xs)"
  by simp

lemma splitWords_dropWhile: "splitWords (dropWhile isWhiteSpace xs) = splitWords xs"
  by (cases xs) (simp_all add: splitWords_def)

lemma splitWords_ws_Cons: "isWhiteSpace x \<Longrightarrow> splitWords (x # xs) = splitWords xs"
  using splitWords_dropWhile[of xs] by (simp add: splitWords_def)

lemma splitWs_not_Nil: "splitWs s \<noteq> []"
  by (induction s rule: splitWs.induct) (auto split: list.splits)

lemma splitWs_shape:
  "hd (splitWs s) = takeWhile (\<lambda>c. \<not> isWhiteSpace c) s
   \<and> filter (\<lambda>word. length word > 0) (tl (splitWs s)) = splitWords (dropWhile (\<lambda>c. \<not> isWhiteSpace c) s)"
proof (induction s rule: splitWs.induct)
  case 1
  show ?case by (simp add: splitWords_def)
next
  case (2 x xs)
  show ?case
  proof (cases "isWhiteSpace x")
    case True
    then show ?thesis using splitWords_dropWhile[of xs] splitWords_ws_Cons[of x xs]
      by (simp add: splitWords_def)
  next
    case False
    with 2 splitWs_not_Nil[of xs] show ?thesis
      by (cases "splitWs xs") auto
  qed
qed

lemma splitWords_nws_Cons:
  assumes "\<not> isWhiteSpace x"
  shows "splitWords (x # s) = (x # takeWhile (\<lambda>c. \<not> isWhiteSpace c) s)
                      # splitWords (dropWhile (\<lambda>c. \<not> isWhiteSpace c) s)"
proof -
  obtain p ps where sp: "splitWs s = p # ps"
    using splitWs_not_Nil[of s] by (cases "splitWs s") auto
  from splitWs_shape[of s] sp
  have "p = takeWhile (\<lambda>c. \<not> isWhiteSpace c) s"
    and "filter (\<lambda>word. length word > 0) ps = splitWords (dropWhile (\<lambda>c. \<not> isWhiteSpace c) s)"
    by simp_all
  then show ?thesis using assms sp by (simp add: splitWords_def)
qed

lemma splitWords_Nil: "splitWords [] = []"
  by (simp add: splitWords_def)

lemma splitWords_append_ws:
  "isWhiteSpace c \<Longrightarrow> splitWords (a @ c # b) = splitWords a @ splitWords b"
proof (induction a rule: length_induct)
  case (1 a)
  show ?case
  proof (cases a)
    case Nil
    then show ?thesis using 1(2) by (simp add: splitWords_ws_Cons splitWords_Nil)
  next
    case (Cons x a')
    show ?thesis
    proof (cases "isWhiteSpace x")
      case True
      have "length a' < length a" using Cons by simp
      with 1 have "splitWords (a' @ c # b) = splitWords a' @ splitWords b" by blast
      then show ?thesis using True Cons by (simp add: splitWords_ws_Cons)
    next
      case False
      let ?n = "\<lambda>c. \<not> isWhiteSpace c"
      have tw: "takeWhile ?n (a' @ c # b) = takeWhile ?n a'"
        using 1(2) by (induction a') auto
      have dw: "dropWhile ?n (a' @ c # b) = dropWhile ?n a' @ c # b"
        using 1(2) by (induction a') auto
      have "length (dropWhile ?n a') < length a"
        using Cons length_dropWhile_le[of ?n a'] by simp
      with 1 have "splitWords (dropWhile ?n a' @ c # b) = splitWords (dropWhile ?n a') @ splitWords b" by blast
      then show ?thesis using False Cons tw dw
        by (simp add: splitWords_nws_Cons)
    qed
  qed
qed

lemma splitWords_single:
  assumes "word \<noteq> []" and "\<forall>c\<in>set word. \<not> isWhiteSpace c"
  shows "splitWords word = [word]"
proof -
  obtain x xs where w: "word = x # xs" using assms(1) by (cases word) auto
  have tw: "takeWhile (\<lambda>c. \<not> isWhiteSpace c) xs = xs"
    and dw: "dropWhile (\<lambda>c. \<not> isWhiteSpace c) xs = []"
    using assms(2) w by auto
  have "\<not> isWhiteSpace x" using assms(2) w by simp
  then show ?thesis unfolding w by (simp add: splitWords_nws_Cons splitWords_Nil tw dw)
qed

lemma splitWords_rev_dropWhile: "splitWords (rev (dropWhile isWhiteSpace (rev t))) = splitWords t"
proof (induction t rule: rev_induct)
  case Nil
  show ?case by simp
next
  case (snoc y t)
  show ?case
  proof (cases "isWhiteSpace y")
    case True
    then show ?thesis using snoc splitWords_append_ws[of y t "[]"] by (simp add: splitWords_Nil)
  next
    case False
    then show ?thesis by simp
  qed
qed

lemma wordsOf_splitWords: "wordsOf s = splitWords s"
proof -
  have "wordsOf s = splitWords (trim s)"
    by (simp add: wordsOf_def splitWords_def)
  also have "\<dots> = splitWords (dropWhile isWhiteSpace s)"
    unfolding trim_def by (rule splitWords_rev_dropWhile)
  also have "\<dots> = splitWords s"
    by (rule splitWords_dropWhile)
  finally show ?thesis .
qed

lemma splitWs_no_ws: "\<forall>word\<in>set (splitWs s). \<forall>c\<in>set word. \<not> isWhiteSpace c"
proof (induction s rule: splitWs.induct)
  case 1
  show ?case by simp
next
  case (2 x xs)
  show ?case
  proof (cases "isWhiteSpace x")
    case True
    with 2 show ?thesis by simp
  next
    case False
    with 2 splitWs_not_Nil[of xs] show ?thesis
      by (cases "splitWs xs") auto
  qed
qed

lemma wordsOf_word: "word \<in> set (wordsOf p) \<Longrightarrow> word \<noteq> [] \<and> (\<forall>c\<in>set word. \<not> isWhiteSpace c)"
  using splitWs_no_ws[of "trim p"] by (auto simp: wordsOf_def)

lemma isWhiteSpace_space: "isWhiteSpace CHR '' ''"
  by (simp add: isWhiteSpace_def)

subsection \<open>Lines are runs of whole words\<close>

lemma goodWords_wordsOf: "goodWords (wordsOf p)"
  using wordsOf_word by (auto simp: goodWords_def)

lemma goodWords_Cons: "goodWords (word # rest) \<longleftrightarrow>
   word \<noteq> [] \<and> (\<forall>c\<in>set word. \<not> isWhiteSpace c) \<and> goodWords rest"
  by (auto simp: goodWords_def)

lemma wordsOf_join:
  "word \<noteq> [] \<Longrightarrow> \<forall>c\<in>set word. \<not> isWhiteSpace c \<Longrightarrow>
   wordsOf (cur @ '' '' @ word) = wordsOf cur @ [word]"
  using splitWords_append_ws[OF isWhiteSpace_space, of cur word]
  by (simp add: wordsOf_splitWords splitWords_single)

lemma wordsOf_single:
  "word \<noteq> [] \<Longrightarrow> \<forall>c\<in>set word. \<not> isWhiteSpace c \<Longrightarrow> wordsOf word = [word]"
  by (simp add: wordsOf_splitWords splitWords_single)

lemma words_greedyFrom:
  "goodWords ws \<Longrightarrow> concat (map wordsOf (greedyFrom m w cur ws)) = wordsOf cur @ ws"
proof (induction ws arbitrary: cur)
  case Nil
  show ?case by simp
next
  case (Cons word rest)
  then have g: "word \<noteq> []" "\<forall>c\<in>set word. \<not> isWhiteSpace c" "goodWords rest"
    by (simp_all add: goodWords_Cons)
  show ?case
  proof (cases "m (cur @ '' '' @ word) \<le> w")
    case True
    have "concat (map wordsOf (greedyFrom m w (cur @ '' '' @ word) rest))
            = wordsOf (cur @ '' '' @ word) @ rest"
      by (rule Cons.IH[OF g(3)])
    then show ?thesis using True wordsOf_join[OF g(1,2), of cur] by simp
  next
    case False
    have "concat (map wordsOf (greedyFrom m w word rest)) = wordsOf word @ rest"
      by (rule Cons.IH[OF g(3)])
    then show ?thesis using False wordsOf_single[OF g(1,2)] by simp
  qed
qed

lemma words_greedyWrap:
  "goodWords ws \<Longrightarrow> concat (map wordsOf (greedyWrap m w ws)) = ws"
proof (cases ws)
  case Nil
  then show ?thesis by simp
next
  case (Cons word rest)
  assume "goodWords ws"
  then have g: "word \<noteq> []" "\<forall>c\<in>set word. \<not> isWhiteSpace c" "goodWords rest"
    using Cons by (simp_all add: goodWords_Cons)
  show ?thesis
    using Cons words_greedyFrom[OF g(3), of m w word] wordsOf_single[OF g(1,2)] by simp
qed

lemma wordsOf_blank: "trim p = [] \<Longrightarrow> wordsOf p = []"
  by (simp add: wordsOf_def)

lemma wordsOf_Nil: "wordsOf [] = []"
  by (simp add: wordsOf_def trim_def)

lemma words_paragraphLines:
  "concat (map wordsOf (paragraphLines m w p)) = wordsOf p"
  by (simp add: paragraphLines_def wordsOf_blank wordsOf_Nil words_greedyWrap goodWords_wordsOf)

lemma words_all_paragraphs:
  "concat (map wordsOf (concat (map (paragraphLines m w) ps))) = concat (map wordsOf ps)"
  by (induction ps) (simp_all add: words_paragraphLines)

lemma words_take_prefix:
  "prefix (concat (map wordsOf (take n xs))) (concat (map wordsOf xs))"
proof -
  have "concat (map wordsOf xs)
          = concat (map wordsOf (take n xs)) @ concat (map wordsOf (drop n xs))"
    by (metis append_take_drop_id concat_append map_append)
  then show ?thesis by (simp add: prefix_def)
qed

lemma fits_greedyFrom:
  "goodWords ws \<Longrightarrow> fits m w cur \<Longrightarrow> \<forall>line\<in>set (greedyFrom m w cur ws). fits m w line"
proof (induction ws arbitrary: cur)
  case Nil
  then show ?case by simp
next
  case (Cons word rest)
  then have g: "word \<noteq> []" "\<forall>c\<in>set word. \<not> isWhiteSpace c" "goodWords rest"
    by (simp_all add: goodWords_Cons)
  have fw: "fits m w word"
    using wordsOf_single[OF g(1,2)] by (simp add: fits_def)
  show ?case
  proof (cases "m (cur @ '' '' @ word) \<le> w")
    case True
    then have "fits m w (cur @ '' '' @ word)" by (simp add: fits_def)
    from Cons.IH[OF g(3) this] True show ?thesis by simp
  next
    case False
    from Cons.IH[OF g(3) fw] False Cons.prems(2) show ?thesis by simp
  qed
qed

lemma fits_paragraphLines: "\<forall>line\<in>set (paragraphLines m w p). fits m w line"
proof (cases "trim p = []")
  case True
  then show ?thesis by (simp add: paragraphLines_def fits_def wordsOf_Nil)
next
  case False
  show ?thesis
  proof (cases "wordsOf p")
    case Nil
    then show ?thesis using False by (simp add: paragraphLines_def)
  next
    case (Cons word rest)
    have "goodWords (word # rest)" using goodWords_wordsOf[of p] Cons by simp
    then have g: "word \<noteq> []" "\<forall>c\<in>set word. \<not> isWhiteSpace c" "goodWords rest"
      by (simp_all add: goodWords_Cons)
    have fw: "fits m w word"
      using wordsOf_single[OF g(1,2)] by (simp add: fits_def)
    from fits_greedyFrom[OF g(3) fw] Cons False show ?thesis
      by (simp add: paragraphLines_def)
  qed
qed

lemma fits_specNoteLines: "\<forall>line\<in>set (specNoteLines m w n t). fits m w line"
proof
  fix line
  assume "line \<in> set (specNoteLines m w n t)"
  then have "line \<in> set (concat (map (paragraphLines m w) (splitOn newline t)))"
    unfolding specNoteLines_def by (rule in_set_takeD)
  then show "fits m w line" using fits_paragraphLines by auto
qed

lemma noteLines_spec:
  "noteLines m cw g t = specNoteLines m (noteAreaWidth cw g) (nat \<lfloor>noteAreaHeight g / 20\<rfloor>) t"
  by (simp add: noteLines_def specNoteLines_def wrapParagraphs_spec Let_def)

lemma length_specNoteLines: "length (specNoteLines m w n t) \<le> n"
  by (simp add: specNoteLines_def)

lemma drawNoteText_texts:
  "map opText (drawNoteText m cw g t) = (if trim t = [] then [] else noteLines m cw g t)"
proof -
  let ?n = "nat \<lfloor>noteAreaHeight g / 20\<rfloor>"
  let ?ls = "noteLines m cw g t"
  have "length ?ls \<le> ?n" by (simp add: noteLines_spec length_specNoteLines)
  then have mn: "min (length ?ls) ?n = length ?ls" by simp
  have "trim [] = []" by (simp add: trim_def)
  then have "t = [] \<Longrightarrow> trim t = []" by simp
  then show ?thesis
    by (auto simp add: drawNoteText_def Let_def mn comp_def map_nth)
qed

lemma drawNoteText_ys: "distinct (map opY (drawNoteText m cw g t))"
proof -
  let ?k = "min (length (noteLines m cw g t)) (nat \<lfloor>noteAreaHeight g / 20\<rfloor>)"
  let ?y = "\<lambda>idx. padding g + (slotsHeight g + 12) + 40 + of_nat idx * (20::rat)"
  have inj: "inj_on ?y A" for A
    by (rule inj_onI) simp
  have "map opY (drawNoteText m cw g t)
          = (if t \<noteq> [] \<and> trim t \<noteq> [] then map ?y [0 ..< ?k] else [])"
    by (simp add: drawNoteText_def Let_def comp_def)
  then show ?thesis
    using inj by (simp add: distinct_map)
qed

subsection \<open>The drawn note\<close>

lemma maxLines_1280: "nat \<lfloor>noteAreaHeight (drawGeometry 1280 None) / 20\<rfloor> = 6"
  by code_simp

lemma noteAreaWidth_1280: "noteAreaWidth 1280 (drawGeometry 1280 None) = 2352 / 5"
  by (simp add: noteAreaWidth_def drawGeometry_1280 Let_def)

lemma sample_note_trim:
  "trim (''the quick brown fox jumps over the lazy dog and then runs far away home''
         @ [newline, newline] @ ''ok'') \<noteq> []"
  by code_simp

lemma sample_blank_trim: "trim ''  '' = []"
  by code_simp

lemma sample_note_drawn:
  "map opText (drawNoteText monoMeasure 1280 (drawGeometry 1280 None)
        (''the quick brown fox jumps over the lazy dog and then runs far away home''
         @ [newline, newline] @ ''ok''))
     = [''the quick brown fox jumps over the lazy dog and then runs'',
        ''far away home'', [], ''ok'']"
  by code_simp

lemma sample_note_spec:
  "specNoteLines monoMeasure (2352 / 5) 6
        (''the quick brown fox jumps over the lazy dog and then runs far away home''
         @ [newline, newline] @ ''ok'')
     = [''the quick brown fox jumps over the lazy dog and then runs'',
        ''far away home'', [], ''ok'']"
  by code_simp

text \<open>
  Claim C7 as stated fails in its last part: a word wider than the note region is kept
  whole on a line of its own, and that line exceeds the region width. Here the region
  is 470.4 pixels wide and the one word of the note measures 480.
\<close>

theorem long_word_exceeds_width:
  "map opText (drawNoteText monoMeasure 1280 (drawGeometry 1280 None)
       ''aaaaaaaaaabbbbbbbbbbccccccccccddddddddddeeeeeeeeeeffffffffff'')
     = [''aaaaaaaaaabbbbbbbbbbccccccccccddddddddddeeeeeeeeeeffffffffff'']
   \<and> noteAreaWidth 1280 (drawGeometry 1280 None) = 2352 / 5
   \<and> monoMeasure ''aaaaaaaaaabbbbbbbbbbccccccccccddddddddddeeeeeeeeeeffffffffff'' = 480"
  by (simp add: drawNoteText_def noteLines_def noteAreaWidth_def noteAreaHeight_def
        drawGeometry_1280 Let_def trim_def isWhiteSpace_def newline_def wordsOf_def
        monoMeasure_def)

text \<open>
  Claim C7, amended. For every measuring function, canvas width, geometry and note
  text, the texts that \<open>drawCanvas\<close> draws in the note region are, in order:
  \<^item> for a note that is not blank, the lines of its paragraphs (the note split at
    newlines; a blank paragraph is one empty line, any other is wrapped greedily by
    measured width), cut to \<open>floor(noteAreaHeight / 20)\<close> lines; for a blank note,
    nothing;
  \<^item> at most \<open>floor(noteAreaHeight / 20)\<close> in number;
  \<^item> each at a vertical position of its own, so no line is drawn twice;
  \<^item> made of whole words: split back into words, the drawn lines give a prefix of
    the words of the note, none broken, dropped or repeated;
  \<^item> within the region width, except that a line holding a single word may exceed it.
\<close>

theorem note_text_layout:
  "(trim noteText \<noteq> [] \<longrightarrow>
      map opText (drawNoteText measureText canvasWidth g noteText)
        = specNoteLines measureText (noteAreaWidth canvasWidth g)
            (nat \<lfloor>noteAreaHeight g / 20\<rfloor>) noteText)
   \<and> (trim noteText = [] \<longrightarrow> drawNoteText measureText canvasWidth g noteText = [])
   \<and> length (drawNoteText measureText canvasWidth g noteText) \<le> nat \<lfloor>noteAreaHeight g / 20\<rfloor>
   \<and> distinct (map opY (drawNoteText measureText canvasWidth g noteText))
   \<and> prefix (concat (map wordsOf (map opText (drawNoteText measureText canvasWidth g noteText))))
        (concat (map wordsOf (splitOn newline noteText)))
   \<and> (\<forall>line\<in>set (map opText (drawNoteText measureText canvasWidth g noteText)).
        measureText line \<le> noteAreaWidth canvasWidth g \<or> length (wordsOf line) \<le> 1)"
proof -
  let ?ops = "drawNoteText measureText canvasWidth g noteText"
  let ?w = "noteAreaWidth canvasWidth g"
  let ?n = "nat \<lfloor>noteAreaHeight g / 20\<rfloor>"
  let ?spec = "specNoteLines measureText ?w ?n noteText"
  have texts: "map opText ?ops = (if trim noteText = [] then [] else ?spec)"
    by (simp add: drawNoteText_texts noteLines_spec)
  have c1: "trim noteText \<noteq> [] \<longrightarrow> map opText ?ops = ?spec"
    using texts by simp
  have c2: "trim noteText = [] \<longrightarrow> ?ops = []"
    by (simp add: drawNoteText_def Let_def)
  have "length (map opText ?ops) \<le> ?n"
    unfolding texts by (simp add: length_specNoteLines)
  then have c3: "length ?ops \<le> ?n"
    by simp
  have c4: "distinct (map opY ?ops)"
    by (rule drawNoteText_ys)
  have "prefix (concat (map wordsOf ?spec)) (concat (map wordsOf (splitOn newline noteText)))"
    unfolding specNoteLines_def
    using words_take_prefix[of ?n "concat (map (paragraphLines measureText ?w) (splitOn newline noteText))"]
    by (simp only: words_all_paragraphs)
  then have c5: "prefix (concat (map wordsOf (map opText ?ops)))
                   (concat (map wordsOf (splitOn newline noteText)))"
    unfolding texts by simp
  have c6: "\<forall>line\<in>set (map opText ?ops). measureText line \<le> ?w \<or> length (wordsOf line) \<le> 1"
    unfolding texts using fits_specNoteLines[of measureText ?w ?n noteText]
    by (simp add: fits_def)
  from c1 c2 c3 c4 c5 c6 show ?thesis
    by blast
qed

theorem note_text_layout_witness:
  "trim (''the quick brown fox jumps over the lazy dog and then runs far away home''
         @ [newline, newline] @ ''ok'') \<noteq> []
   \<and> map opText (drawNoteText monoMeasure 1280 (drawGeometry 1280 None)
        (''the quick brown fox jumps over the lazy dog and then runs far away home''
         @ [newline, newline] @ ''ok''))
     = [''the quick brown fox jumps over the lazy dog and then runs'',
        ''far away home'', [], ''ok'']
   \<and> specNoteLines monoMeasure (noteAreaWidth 1280 (drawGeometry 1280 None))
        (nat \<lfloor>noteAreaHeight (drawGeometry 1280 None) / 20\<rfloor>)
        (''the quick brown fox jumps over the lazy dog and then runs far away home''
         @ [newline, newline] @ ''ok'')
     = [''the quick brown fox jumps over the lazy dog and then runs'',
        ''far away home'', [], ''ok'']
   \<and> monoMeasure ''the quick brown fox jumps over the lazy dog and then runs''
       \<le> noteAreaWidth 1280 (drawGeometry 1280 None)
   \<and> trim ''  '' = []
   \<and> drawNoteText monoMeasure 1280 (drawGeometry 1280 None) ''  '' = []"
  using note_text_layout [of "''the quick brown fox jumps over the lazy dog and then runs far away home''
         @ [newline, newline] @ ''ok''" monoMeasure 1280 "drawGeometry 1280 None"]
    note_text_layout [of "''  ''" monoMeasure 1280 "drawGeometry 1280 None"]
    sample_note_trim sample_blank_trim
  by (simp only: sample_note_drawn sample_note_spec maxLines_1280 noteAreaWidth_1280
        simp_thms) (simp add: monoMeasure_def)

end
